theory Spec2Isabelle
  imports Main "HOL-Library.Word"
begin

unbundle bit_operations_syntax

section \<open>Package ecdh25519: Diffie-Hellman over curve25519\<close>

text \<open>
  The package is three functions around one call into golang.org/x/crypto/curve25519:
  \<^verbatim>\<open>PrivateKey.PublicKey\<close>, \<^verbatim>\<open>GenerateKeyPair\<close> and \<^verbatim>\<open>GenerateSharedSecret\<close>.
  Go values are modelled as the code has them: a byte is an 8-bit word, a slice is either
  \<^verbatim>\<open>nil\<close> or a list of bytes, an \<^verbatim>\<open>error\<close> result is either \<^verbatim>\<open>nil\<close> or an error value, and a
  function with several results returns a tuple, so that "a value together with an error"
  is a value of the model and its absence is something to prove.
\<close>

subsection \<open>Bytes, slices and errors\<close>

type_synonym byte = "8 word"
type_synonym bytes = "byte list"

text \<open>A slice of bytes; \<open>None\<close> is Go's \<^verbatim>\<open>nil\<close>, whose length is 0.\<close>

type_synonym slice = "bytes option"

definition len :: "slice \<Rightarrow> nat" where
  "len s = (case s of None \<Rightarrow> 0 | Some bs \<Rightarrow> length bs)"

text \<open>The two error variables the package declares in its \<^verbatim>\<open>var\<close> block.\<close>

datatype sentinel = ErrBadPrivateKeyLength | ErrBadPublicKeyLength

text \<open>
  Error values. \<open>Errorf s l\<close> is \<^verbatim>\<open>fmt.Errorf("%w: %d", s, l)\<close>: it wraps the package's error
  variable \<open>s\<close> and carries the length \<open>l\<close>. \<open>EOF\<close> and \<open>ErrUnexpectedEOF\<close> are the error
  variables of package io. \<open>Foreign msg\<close> is any other error value, made outside this
  package (by the reader or by curve25519).
\<close>

datatype error =
    Errorf sentinel nat
  | EOF
  | ErrUnexpectedEOF
  | Foreign string

text \<open>\<^verbatim>\<open>errors.Is(err, target)\<close> for a target among the package's error variables.\<close>

fun Is :: "error \<Rightarrow> sentinel \<Rightarrow> bool" where
  "Is (Errorf s l) target = (s = target)"
| "Is EOF target = False"
| "Is ErrUnexpectedEOF target = False"
| "Is (Foreign msg) target = False"

text \<open>An error is one of the package's named errors when it is (or wraps) one of its error variables.\<close>

definition named_error :: "error \<Rightarrow> bool" where
  "named_error e = (Is e ErrBadPrivateKeyLength \<or> Is e ErrBadPublicKeyLength)"

definition PublicKeySize :: nat where
  "PublicKeySize = 32"

definition PrivateKeySize :: nat where
  "PrivateKeySize = 32"

subsection \<open>The collaborators: curve25519 and io\<close>

text \<open>
  \<^verbatim>\<open>curve25519.X25519(scalar, point []byte) ([]byte, error)\<close> is not part of the package. It
  is a parameter of every function below that calls it: a function from the two slices to
  the pair of results, which says that it is deterministic and leaves its arguments alone,
  and nothing else.
\<close>

type_synonym primitive = "slice \<Rightarrow> slice \<Rightarrow> slice \<times> error option"

text \<open>\<^verbatim>\<open>curve25519.Basepoint\<close>, the canonical generator: the byte 9 followed by 31 zero bytes.\<close>

definition Basepoint :: slice where
  "Basepoint = Some (9 # replicate 31 0)"

text \<open>
  An \<^verbatim>\<open>io.Reader\<close> is modelled by the results its next calls of \<^verbatim>\<open>Read\<close> will give: each entry
  is the bytes of one call and the error returned with them. A call that asks for fewer
  bytes than the entry holds gets that many with no error and leaves the rest for the next
  call; a reader whose entries are used up returns 0 bytes and \<open>EOF\<close>. A reader that
  returns 0 bytes and no error for ever is not modelled.
\<close>

type_synonym reader = "(bytes \<times> error option) list"

fun Read :: "reader \<Rightarrow> nat \<Rightarrow> bytes \<times> error option \<times> reader" where
  "Read [] k = ([], Some EOF, [])"
| "Read ((c, e) # rest) k =
     (if length c \<le> k then (c, e, rest) else (take k c, None, (drop k c, e) # rest))"

text \<open>The number of input entries and bytes a reader still holds: what each \<open>Read\<close> that
  returns no error makes smaller.\<close>

fun pending :: "reader \<Rightarrow> nat" where
  "pending [] = 0"
| "pending ((c, e) # rest) = Suc (length c + pending rest)"

text \<open>
  The loop of \<^verbatim>\<open>io.ReadAtLeast(r, buf, min)\<close> with \<open>min = len(buf)\<close>, as \<^verbatim>\<open>io.ReadFull\<close> calls it:
  \<^verbatim>\<open>for n < min && err == nil { nn, err = r.Read(buf[n:]); n += nn }\<close>.
  It returns the buffer, the count, the error of the last \<open>Read\<close> and the reader.
\<close>

function readLoop :: "reader \<Rightarrow> bytes \<Rightarrow> nat \<Rightarrow> bytes \<times> nat \<times> error option \<times> reader" where
  "readLoop r buf n =
     (if n < length buf then
        (case Read r (length buf - n) of
           (d, err, r') \<Rightarrow>
             (case err of
                None \<Rightarrow> readLoop r' (take n buf @ d @ drop (n + length d) buf) (n + length d)
              | Some e \<Rightarrow> (take n buf @ d @ drop (n + length d) buf, n + length d, Some e, r')))
      else (buf, n, None, r))"
  by pat_completeness auto
termination
proof (relation "measure (\<lambda>(r, buf, n). pending r)")
  fix r :: reader and buf :: bytes and n :: nat and d y err r'
  assume n: "n < length buf" and "(d, y) = Read r (length buf - n)"
    and "(err, r') = y" and "err = None"
  then have rd: "Read r (length buf - n) = (d, None, r')"
    by (metis)
  have "pending r' < pending r"
  proof (cases r)
    case Nil
    with rd show ?thesis by simp
  next
    case (Cons a rest)
    with rd n show ?thesis by (cases a) (auto split: if_splits)
  qed
  then show "((r', take n buf @ d @ drop (n + length d) buf, n + length d), r, buf, n)
      \<in> measure (\<lambda>(r, buf, n). pending r)"
    by simp
qed simp

declare readLoop.simps [simp del]

text \<open>
  \<^verbatim>\<open>io.ReadFull(r, buf)\<close>, that is \<^verbatim>\<open>ReadAtLeast(r, buf, len(buf))\<close>: after the loop,
  \<^verbatim>\<open>if n >= min { err = nil } else if n > 0 && err == EOF { err = ErrUnexpectedEOF }\<close>.
  The buffer is written in place, so the model returns it with the count, the error and
  the reader.
\<close>

definition ReadFull :: "reader \<Rightarrow> bytes \<Rightarrow> bytes \<times> nat \<times> error option \<times> reader" where
  "ReadFull r buf =
     (case readLoop r buf 0 of
        (buf', n, err, r') \<Rightarrow>
          (if n \<ge> length buf then (buf', n, None, r')
           else if n > 0 \<and> err = Some EOF then (buf', n, Some ErrUnexpectedEOF, r')
           else (buf', n, err, r')))"

subsection \<open>The package's functions\<close>

text \<open>
  \<^verbatim>\<open>func (p PrivateKey) PublicKey() (PublicKey, error)\<close> returns what
  \<^verbatim>\<open>curve25519.X25519(p, curve25519.Basepoint)\<close> returns.
\<close>

definition PublicKey :: "primitive \<Rightarrow> slice \<Rightarrow> slice \<times> error option" where
  "PublicKey X25519 p = X25519 p Basepoint"

text \<open>
  \<^verbatim>\<open>GenerateKeyPair(rand io.Reader) (PublicKey, PrivateKey, error)\<close>. \<open>cryptorand\<close> is
  \<^verbatim>\<open>crypto/rand.Reader\<close>, used when \<open>rand\<close> is \<^verbatim>\<open>nil\<close>. The buffer made by
  \<^verbatim>\<open>make(PrivateKey, PrivateKeySize)\<close> holds 32 zero bytes and keeps that length, so the
  indices 0 and 31 are in range. The reader is changed by the call: its new state is
  returned beside the three results.
\<close>

definition GenerateKeyPair ::
    "primitive \<Rightarrow> reader \<Rightarrow> reader option \<Rightarrow> (slice \<times> slice \<times> error option) \<times> reader" where
  "GenerateKeyPair X25519 cryptorand rand =
     (let rand = (case rand of None \<Rightarrow> cryptorand | Some r \<Rightarrow> r);
          privateKey = replicate PrivateKeySize (0 :: byte)
      in case ReadFull rand privateKey of
        (privateKey, n, err, rand) \<Rightarrow>
          (case err of
             Some e \<Rightarrow> ((None, None, Some e), rand)
           | None \<Rightarrow>
               (let privateKey = privateKey[0 := privateKey ! 0 AND 248];
                    privateKey = privateKey[31 := privateKey ! 31 AND 127];
                    privateKey = privateKey[31 := privateKey ! 31 OR 64]
                in case PublicKey X25519 (Some privateKey) of
                  (publicKey, err) \<Rightarrow>
                    (case err of
                       Some e \<Rightarrow> ((None, None, Some e), rand)
                     | None \<Rightarrow> ((publicKey, Some privateKey, None), rand)))))"

text \<open>\<^verbatim>\<open>GenerateSharedSecret(privateKey PrivateKey, publicKey PublicKey) ([]byte, error)\<close>.\<close>

definition GenerateSharedSecret :: "primitive \<Rightarrow> slice \<Rightarrow> slice \<Rightarrow> slice \<times> error option" where
  "GenerateSharedSecret X25519 privateKey publicKey =
     (if len privateKey \<noteq> PrivateKeySize
        then (None, Some (Errorf ErrBadPrivateKeyLength (len privateKey)))
      else if len publicKey \<noteq> PublicKeySize
        then (None, Some (Errorf ErrBadPublicKeyLength (len publicKey)))
      else X25519 privateKey publicKey)"

subsection \<open>What a reader can supply\<close>

text \<open>
  The bytes a reader delivers before its first error (the bytes returned together with
  that error included), and that error; a reader whose entries run out fails with \<open>EOF\<close>.
\<close>

fun available :: "reader \<Rightarrow> nat" where
  "available [] = 0"
| "available ((c, None) # rest) = length c + available rest"
| "available ((c, Some e) # rest) = length c"

fun failure :: "reader \<Rightarrow> error" where
  "failure [] = EOF"
| "failure ((c, None) # rest) = failure rest"
| "failure ((c, Some e) # rest) = e"

definition read_error :: "reader \<Rightarrow> error" where
  "read_error r = (if 0 < available r \<and> failure r = EOF then ErrUnexpectedEOF else failure r)"

text \<open>
  A clamped key: 32 bytes, the three low bits of byte 0 clear, bit 7 of byte 31 clear and
  bit 6 of byte 31 set.
\<close>

definition clamped :: "slice \<Rightarrow> bool" where
  "clamped key =
     (case key of
        None \<Rightarrow> False
      | Some k \<Rightarrow> length k = 32 \<and> k ! 0 AND 7 = 0 \<and> \<not> bit (k ! 31) 7 \<and> bit (k ! 31) 6)"

text \<open>
  A stand-in for the primitive, to run the functions on concrete inputs: it checks the two
  lengths as \<^verbatim>\<open>curve25519.X25519\<close> does and returns the bytewise exclusive or of its arguments.
\<close>

definition xorX25519 :: primitive where
  "xorX25519 scalar point =
     (case (scalar, point) of
        (Some s, Some p) \<Rightarrow>
          (if length s \<noteq> 32 then (None, Some (Foreign ''bad scalar length''))
           else if length p \<noteq> 32 then (None, Some (Foreign ''bad point length''))
           else (Some (map2 (XOR) s p), None))
      | _ \<Rightarrow> (None, Some (Foreign ''bad length'')))"


section \<open>The reading loop\<close>

text \<open>One turn of the loop, for each way it can go.\<close>

lemma readLoop_done: "\<not> n < length buf \<Longrightarrow> readLoop r buf n = (buf, n, None, r)"
  by (subst readLoop.simps) simp

lemma readLoop_more:
  "n < length buf \<Longrightarrow> Read r (length buf - n) = (d, None, r1) \<Longrightarrow>
     readLoop r buf n = readLoop r1 (take n buf @ d @ drop (n + length d) buf) (n + length d)"
  by (subst readLoop.simps) simp

lemma readLoop_stop:
  "n < length buf \<Longrightarrow> Read r (length buf - n) = (d, Some e, r1) \<Longrightarrow>
     readLoop r buf n = (take n buf @ d @ drop (n + length d) buf, n + length d, Some e, r1)"
  by (subst readLoop.simps) simp

lemma Read_length: "Read r k = (d, err, r') \<Longrightarrow> length d \<le> k"
proof (cases r)
  case Nil
  then show "Read r k = (d, err, r') \<Longrightarrow> length d \<le> k" by simp
next
  case (Cons a rest)
  then show "Read r k = (d, err, r') \<Longrightarrow> length d \<le> k"
    by (cases a) (auto split: if_splits)
qed


lemma readLoop_length:
  "n \<le> length buf \<Longrightarrow> readLoop r buf n = (b, n', err, r') \<Longrightarrow>
     length b = length buf \<and> n' \<le> length buf \<and> (err = None \<longrightarrow> n' = length buf)"
proof (induction r buf n arbitrary: b n' err r' rule: readLoop.induct)
  case (1 r buf n)
  show ?case
  proof (cases "n < length buf")
    case False
    from readLoop_done [OF False, of r] "1.prems" False show ?thesis by auto
  next
    case True
    obtain d e r1 where rd: "Read r (length buf - n) = (d, e, r1)"
      using prod_cases3 by blast
    from Read_length [OF rd] have ld: "length d \<le> length buf - n" .
    let ?buf = "take n buf @ d @ drop (n + length d) buf"
    have len: "length ?buf = length buf" using ld True by simp
    show ?thesis
    proof (cases e)
      case None
      have run: "readLoop r1 ?buf (n + length d) = (b, n', err, r')"
        using readLoop_more [OF True rd [unfolded None]] "1.prems"(2) by simp
      have le: "n + length d \<le> length ?buf" using ld True by simp
      from "1.IH" [OF True rd [symmetric] refl None le run] len
      show ?thesis by simp
    next
      case (Some e')
      from readLoop_stop [OF True rd [unfolded Some]] "1.prems"(2) ld True
      show ?thesis by auto
    qed
  qed
qed

lemma readLoop_short:
  "n + available r < length buf \<Longrightarrow> readLoop r buf n = (b, n', err, r') \<Longrightarrow>
     n' = n + available r \<and> err = Some (failure r)"
proof (induction r buf n arbitrary: b n' err r' rule: readLoop.induct)
  case (1 r buf n)
  from "1.prems"(1) have lt: "n < length buf" by simp
  show ?case
  proof (cases r)
    case Nil
    then have "Read r (length buf - n) = ([], Some EOF, [])" by simp
    from readLoop_stop [OF lt this] "1.prems"(2) Nil show ?thesis by simp
  next
    case (Cons a rest)
    obtain c e where a: "a = (c, e)" by (cases a) auto
    have fit: "length c \<le> length buf - n"
      using "1.prems"(1) Cons a by (cases e) auto
    then have rd: "Read r (length buf - n) = (c, e, rest)"
      using Cons a by simp
    show ?thesis
    proof (cases e)
      case None
      let ?buf = "take n buf @ c @ drop (n + length c) buf"
      have len: "length ?buf = length buf" using fit lt by simp
      have run: "readLoop rest ?buf (n + length c) = (b, n', err, r')"
        using readLoop_more [OF lt rd [unfolded None]] "1.prems"(2) by simp
      have short: "n + length c + available rest < length ?buf"
        using "1.prems"(1) Cons a None len by simp
      from "1.IH" [OF lt rd [symmetric] refl None short run]
      show ?thesis using Cons a None by simp
    next
      case (Some e')
      from readLoop_stop [OF lt rd [unfolded Some]] "1.prems"(2)
      have "n' = n + length c" and "err = Some e'" by simp_all
      moreover have "available r = length c" and "failure r = e'"
        using Cons a Some by simp_all
      ultimately show ?thesis by simp
    qed
  qed
qed

lemma ReadFull_ok:
  assumes "ReadFull r buf = (b, n, None, r')"
  shows "length b = length buf"
proof -
  obtain b1 n1 e1 r1 where run: "readLoop r buf 0 = (b1, n1, e1, r1)"
    using prod_cases4 by blast
  from readLoop_length [OF _ run] have "length b1 = length buf" by simp
  with assms run show ?thesis
    by (simp add: ReadFull_def split: if_splits)
qed

lemma ReadFull_short:
  assumes "available r < length buf" and "ReadFull r buf = (b, n, err, r')"
  shows "err = Some (read_error r)"
proof -
  obtain b1 n1 e1 r1 where run: "readLoop r buf 0 = (b1, n1, e1, r1)"
    using prod_cases4 by blast
  from readLoop_short [OF _ run] assms(1)
  have "n1 = available r" and "e1 = Some (failure r)" by simp_all
  with assms run show ?thesis
    by (auto simp add: ReadFull_def read_error_def split: if_splits)
qed

section \<open>Key generation\<close>

lemma clamp_low: "(x AND 248) AND 7 = (0 :: byte)"
  by (simp add: and.assoc)

lemma clamp_high: "\<not> bit (((y :: byte) AND 127) OR 64) 7" "bit ((y AND 127) OR 64) 6"
  by (simp_all add: bit_or_iff bit_and_iff)

text \<open>
  C1: when \<open>GenerateKeyPair\<close> succeeds, whatever the reader and the primitive, deriving the
  public key from the private key it returned gives the public key it returned.
\<close>

theorem GenerateKeyPair_roundtrip:
  assumes "fst (GenerateKeyPair X25519 cryptorand rand) = (publicKey, privateKey, None)"
  shows "PublicKey X25519 privateKey = (publicKey, None)"
  using assms
  by (auto simp add: GenerateKeyPair_def Let_def split: prod.splits option.splits)

theorem GenerateKeyPair_roundtrip_witness:
  "fst (GenerateKeyPair xorX25519 [] (Some [(replicate 20 255, None), (replicate 20 255, None)]))
     = (Some (241 # replicate 30 255 @ [127]), Some (248 # replicate 30 255 @ [127]), None)
   \<and> PublicKey xorX25519 (Some (248 # replicate 30 255 @ [127]))
     = (Some (241 # replicate 30 255 @ [127]), None)"
proof -
  have run: "fst (GenerateKeyPair xorX25519 [] (Some [(replicate 20 255, None), (replicate 20 255, None)]))
     = (Some (241 # replicate 30 255 @ [127]), Some (248 # replicate 30 255 @ [127]), None)"
    by code_simp
  from run GenerateKeyPair_roundtrip [OF run] show ?thesis
    by (rule conjI)
qed

text \<open>
  C3: the private key of a successful \<open>GenerateKeyPair\<close> is clamped, whatever bytes the reader
  gave: it has 32 bytes, the lowest 3 bits of byte 0 are clear, bit 7 of byte 31 is clear
  and bit 6 of byte 31 is set.
\<close>

theorem GenerateKeyPair_clamped:
  assumes "fst (GenerateKeyPair X25519 cryptorand rand) = (publicKey, privateKey, None)"
  shows "clamped privateKey"
proof -
  let ?r = "case rand of None \<Rightarrow> cryptorand | Some r \<Rightarrow> r"
  obtain b n err r' where rf: "ReadFull ?r (replicate PrivateKeySize 0) = (b, n, err, r')"
    using prod_cases4 by blast
  from assms rf have ok: "err = None"
    by (auto simp add: GenerateKeyPair_def Let_def split: prod.splits option.splits)
  from ReadFull_ok [OF rf [unfolded ok]] have len: "length b = 32"
    by (simp add: PrivateKeySize_def)
  let ?k = "(b[0 := b ! 0 AND 248])[31 := (b[0 := b ! 0 AND 248]) ! 31 AND 127]"
  let ?key = "?k[31 := ?k ! 31 OR 64]"
  from assms rf ok have key: "privateKey = Some ?key"
    by (auto simp add: GenerateKeyPair_def Let_def split: prod.splits option.splits)
  have "?key ! 0 = b ! 0 AND 248" using len by simp
  moreover have "?key ! 31 = (b ! 31 AND 127) OR 64" using len by simp
  moreover have "length ?key = 32" using len by simp
  ultimately show ?thesis
    unfolding key clamped_def by (simp add: clamp_low clamp_high)
qed

theorem GenerateKeyPair_clamped_witness:
  "fst (GenerateKeyPair xorX25519 [(replicate 32 255, None)] None)
     = (Some (241 # replicate 30 255 @ [127]), Some (248 # replicate 30 255 @ [127]), None)
   \<and> clamped (Some (248 # replicate 30 255 @ [127]))"
proof -
  have run: "fst (GenerateKeyPair xorX25519 [(replicate 32 255, None)] None)
     = (Some (241 # replicate 30 255 @ [127]), Some (248 # replicate 30 255 @ [127]), None)"
    by code_simp
  from run GenerateKeyPair_clamped [OF run] show ?thesis
    by (rule conjI)
qed

text \<open>
  C4, as stated, fails: a reader with nothing to give makes \<open>GenerateKeyPair\<close> fail with
  \<open>EOF\<close> of package io, which is not one of the errors the package names. The package
  declares two error variables, for the two key lengths, and none for the reader.
\<close>

theorem GenerateKeyPair_read_error_unnamed:
  "available [] < PrivateKeySize
   \<and> fst (GenerateKeyPair xorX25519 [] (Some [])) = (None, None, Some EOF)
   \<and> \<not> named_error EOF"
  by code_simp

text \<open>
  C4, amended: when the reader supplies fewer than 32 bytes, \<open>GenerateKeyPair\<close> returns no
  keys and the error of \<^verbatim>\<open>io.ReadFull\<close> as it is, \<open>read_error\<close>: the error on which the reader
  stopped, whether or not a byte was read before it, except that \<open>EOF\<close> after at least one
  byte becomes \<open>ErrUnexpectedEOF\<close>. So the error is \<open>EOF\<close> only for a reader that ended with
  \<open>EOF\<close> before any byte; a reader that breaks before any byte gives its own error.
\<close>

theorem GenerateKeyPair_read_failure:
  assumes "available (case rand of None \<Rightarrow> cryptorand | Some r \<Rightarrow> r) < PrivateKeySize"
  shows "fst (GenerateKeyPair X25519 cryptorand rand)
     = (None, None, Some (read_error (case rand of None \<Rightarrow> cryptorand | Some r \<Rightarrow> r)))"
proof -
  let ?r = "case rand of None \<Rightarrow> cryptorand | Some r \<Rightarrow> r"
  obtain b n err r' where rf: "ReadFull ?r (replicate PrivateKeySize 0) = (b, n, err, r')"
    using prod_cases4 by blast
  from assms have "available ?r < length (replicate PrivateKeySize (0 :: byte))" by simp
  from ReadFull_short [OF this rf] have "err = Some (read_error ?r)" .
  with rf show ?thesis
    by (simp add: GenerateKeyPair_def Let_def)
qed

theorem GenerateKeyPair_read_failure_witness:
  "available (case Some [([1, 2, 3], None)] of None \<Rightarrow> [] | Some r \<Rightarrow> r) < PrivateKeySize
   \<and> fst (GenerateKeyPair xorX25519 [] (Some [([1, 2, 3], None)]))
       = (None, None, Some ErrUnexpectedEOF)
   \<and> available (case None of None \<Rightarrow> [([], Some (Foreign ''broken''))] | Some r \<Rightarrow> r)
       < PrivateKeySize
   \<and> fst (GenerateKeyPair xorX25519 [([], Some (Foreign ''broken''))] None)
       = (None, None, Some (Foreign ''broken''))"
proof -
  have short: "available (case Some [([1, 2, 3], None)] of None \<Rightarrow> [] | Some r \<Rightarrow> r) < PrivateKeySize"
    by code_simp
  have e: "read_error (case Some [([1, 2, 3], None)] of None \<Rightarrow> [] | Some r \<Rightarrow> r) = ErrUnexpectedEOF"
    by code_simp
  have broken: "available (case None of None \<Rightarrow> [([], Some (Foreign ''broken''))] | Some r \<Rightarrow> r)
       < PrivateKeySize"
    by code_simp
  have f: "read_error (case None of None \<Rightarrow> [([], Some (Foreign ''broken''))] | Some r \<Rightarrow> r)
       = Foreign ''broken''"
    by code_simp
  from GenerateKeyPair_read_failure [OF short, of xorX25519] e
  have 1: "fst (GenerateKeyPair xorX25519 [] (Some [([1, 2, 3], None)]))
       = (None, None, Some ErrUnexpectedEOF)"
    by simp
  from GenerateKeyPair_read_failure [OF broken, of xorX25519] f
  have 2: "fst (GenerateKeyPair xorX25519 [([], Some (Foreign ''broken''))] None)
       = (None, None, Some (Foreign ''broken''))"
    by simp
  from short 1 broken 2 show ?thesis by blast
qed

section \<open>The shared secret and the public key\<close>

text \<open>
  C2: a private key whose length is not 32 gives the error wrapping \<open>ErrBadPrivateKeyLength\<close>
  with that length; a private key of length 32 with a public key whose length is not 32
  gives the error wrapping \<open>ErrBadPublicKeyLength\<close> with that length; and in both cases the
  result is the same whatever the primitive is, so it is reached without the primitive.
\<close>

theorem GenerateSharedSecret_length_checks:
  "(len privateKey \<noteq> 32 \<longrightarrow>
      GenerateSharedSecret X25519 privateKey publicKey
        = (None, Some (Errorf ErrBadPrivateKeyLength (len privateKey))))
   \<and> (len privateKey = 32 \<and> len publicKey \<noteq> 32 \<longrightarrow>
      GenerateSharedSecret X25519 privateKey publicKey
        = (None, Some (Errorf ErrBadPublicKeyLength (len publicKey))))
   \<and> (len privateKey \<noteq> 32 \<or> len publicKey \<noteq> 32 \<longrightarrow>
      GenerateSharedSecret X25519 privateKey publicKey
        = GenerateSharedSecret X25519' privateKey publicKey)"
  by (simp add: GenerateSharedSecret_def PrivateKeySize_def PublicKeySize_def)

theorem GenerateSharedSecret_length_checks_witness:
  "len (Some [1, 2, 3]) \<noteq> 32
   \<and> GenerateSharedSecret xorX25519 (Some [1, 2, 3]) (Some (replicate 32 9))
       = (None, Some (Errorf ErrBadPrivateKeyLength 3))
   \<and> len (Some (replicate 32 7)) = 32 \<and> len (Some (replicate 33 9)) \<noteq> 32
   \<and> GenerateSharedSecret xorX25519 (Some (replicate 32 7)) (Some (replicate 33 9))
       = (None, Some (Errorf ErrBadPublicKeyLength 33))
   \<and> GenerateSharedSecret xorX25519 (Some (replicate 32 7)) (Some (replicate 33 9))
       = GenerateSharedSecret (GenerateSharedSecret xorX25519) (Some (replicate 32 7)) (Some (replicate 33 9))"
proof -
  have a: "len (Some [1, 2, 3 :: byte]) \<noteq> 32" and a': "len (Some [1, 2, 3 :: byte]) = 3"
    by (simp_all add: len_def)
  have b: "len (Some (replicate 32 (7 :: byte))) = 32"
    and c: "len (Some (replicate 33 (9 :: byte))) \<noteq> 32"
    and c': "len (Some (replicate 33 (9 :: byte))) = 33"
    by (simp_all add: len_def)
  from GenerateSharedSecret_length_checks
    [of "Some [1, 2, 3]" xorX25519 "Some (replicate 32 9)" xorX25519] a a'
  have 1: "GenerateSharedSecret xorX25519 (Some [1, 2, 3]) (Some (replicate 32 9))
       = (None, Some (Errorf ErrBadPrivateKeyLength 3))"
    by simp
  from GenerateSharedSecret_length_checks
    [of "Some (replicate 32 7)" xorX25519 "Some (replicate 33 9)" "GenerateSharedSecret xorX25519"] b c c'
  have 2: "GenerateSharedSecret xorX25519 (Some (replicate 32 7)) (Some (replicate 33 9))
       = (None, Some (Errorf ErrBadPublicKeyLength 33))"
    and 3: "GenerateSharedSecret xorX25519 (Some (replicate 32 7)) (Some (replicate 33 9))
       = GenerateSharedSecret (GenerateSharedSecret xorX25519) (Some (replicate 32 7)) (Some (replicate 33 9))"
    by auto
  from a 1 b c 2 3 show ?thesis by blast
qed

text \<open>
  C10: when both lengths are wrong the error is the one of the private key, carrying the
  private key's length, and not the one of the public key.
\<close>

theorem private_key_length_checked_first:
  assumes "len privateKey \<noteq> 32" and "len publicKey \<noteq> 32"
  shows "GenerateSharedSecret X25519 privateKey publicKey
           = (None, Some (Errorf ErrBadPrivateKeyLength (len privateKey)))
         \<and> snd (GenerateSharedSecret X25519 privateKey publicKey)
           \<noteq> Some (Errorf ErrBadPublicKeyLength l)"
  using assms by (simp add: GenerateSharedSecret_def PrivateKeySize_def)

theorem private_key_length_checked_first_witness:
  "len (Some (replicate 31 5)) \<noteq> 32 \<and> len None \<noteq> 32
   \<and> GenerateSharedSecret xorX25519 (Some (replicate 31 5)) None
       = (None, Some (Errorf ErrBadPrivateKeyLength 31))"
proof -
  have a: "len (Some (replicate 31 (5 :: byte))) \<noteq> 32" and b: "len None \<noteq> 32"
    and c: "len (Some (replicate 31 (5 :: byte))) = 31"
    by (simp_all add: len_def)
  from private_key_length_checked_first [OF a b, of xorX25519] a b c
  show ?thesis by simp
qed

text \<open>
  C5: \<open>PublicKey\<close> and, once the two lengths are 32, \<open>GenerateSharedSecret\<close> return what the
  primitive returns on the private key exactly as it was given, for every primitive; no
  byte is changed or clamped on the way.
\<close>

theorem private_key_passed_as_given:
  "PublicKey X25519 privateKey = X25519 privateKey Basepoint
   \<and> (len privateKey = 32 \<and> len publicKey = 32 \<longrightarrow>
        GenerateSharedSecret X25519 privateKey publicKey = X25519 privateKey publicKey)"
  by (simp add: PublicKey_def GenerateSharedSecret_def PrivateKeySize_def PublicKeySize_def)

theorem private_key_passed_as_given_witness:
  "len (Some (replicate 32 255)) = 32 \<and> len (Some (replicate 32 1)) = 32
   \<and> GenerateSharedSecret xorX25519 (Some (replicate 32 255)) (Some (replicate 32 1))
       = (Some (replicate 32 254), None)
   \<and> PublicKey xorX25519 (Some (replicate 32 255)) = (Some (246 # replicate 31 255), None)"
proof -
  have a: "len (Some (replicate 32 (255 :: byte))) = 32"
    and b: "len (Some (replicate 32 (1 :: byte))) = 32"
    by (simp_all add: len_def)
  have x: "xorX25519 (Some (replicate 32 255)) (Some (replicate 32 1)) = (Some (replicate 32 254), None)"
    by code_simp
  have y: "xorX25519 (Some (replicate 32 255)) Basepoint = (Some (246 # replicate 31 255), None)"
    by code_simp
  from private_key_passed_as_given
    [of xorX25519 "Some (replicate 32 255)" "Some (replicate 32 1)"] a b x y
  show ?thesis by simp
qed




end
